theory Spec2Isabelle
  imports Complex_Main
begin

section \<open>JavaScript values\<close>

text \<open>
  The values that travel through \<^verbatim>\<open>src/index.ts\<close>: results of handlers, their
  \<^verbatim>\<open>data\<close>, thrown values and response bodies. Numbers are the rationals together with
  \<^verbatim>\<open>NaN\<close> and the two infinities (every finite double is a rational; the code only asks
  whether a number is an integer and compares it with 100 and 599). An object is the list
  of its properties in insertion order, read by the first entry of a key; an array is the
  object of its indices. \<open>JErr name message\<close> is a value for which
  \<^verbatim>\<open>instanceof Error\<close> holds, with the values its \<^verbatim>\<open>name\<close> and \<^verbatim>\<open>message\<close> properties
  read. Properties are plain data: no getters, no proxies.
\<close>

datatype jsval =
    JUndefined
  | JNull
  | JBool bool
  | JNum rat
  | JNaN
  | JInfinity bool
  | JStr string
  | JFun nat
  | JObj "(string \<times> jsval) list"
  | JErr jsval jsval

text \<open>ToBoolean, as used by \<^verbatim>\<open>!x\<close>, \<^verbatim>\<open>x ? a : b\<close>, \<^verbatim>\<open>x || y\<close> and \<^verbatim>\<open>x && y\<close>.\<close>

fun truthy :: "jsval \<Rightarrow> bool" where
  "truthy JUndefined = False"
| "truthy JNull = False"
| "truthy (JBool b) = b"
| "truthy (JNum q) = (q \<noteq> 0)"
| "truthy JNaN = False"
| "truthy (JInfinity p) = True"
| "truthy (JStr s) = (s \<noteq> [])"
| "truthy (JFun f) = True"
| "truthy (JObj fs) = True"
| "truthy (JErr n m) = True"

text \<open>\<^verbatim>\<open>v && typeof v === "object"\<close>: objects, arrays and Error instances.\<close>

fun is_object :: "jsval \<Rightarrow> bool" where
  "is_object (JObj fs) = True"
| "is_object (JErr n m) = True"
| "is_object v = False"

text \<open>
  \<^verbatim>\<open>v.k\<close> where the code has made sure that \<open>v\<close> is an object, and \<^verbatim>\<open>v?.k\<close> elsewhere:
  a property that is not there, or any property of a primitive, reads \<^verbatim>\<open>undefined\<close>.
\<close>

fun get_prop :: "jsval \<Rightarrow> string \<Rightarrow> jsval" where
  "get_prop (JObj fs) k = (case map_of fs k of Some v \<Rightarrow> v | None \<Rightarrow> JUndefined)"
| "get_prop (JErr n m) k = (if k = ''name'' then n else if k = ''message'' then m else JUndefined)"
| "get_prop v k = JUndefined"

text \<open>\<^verbatim>\<open>Object.prototype.hasOwnProperty.call(v, k)\<close>.\<close>

fun hasOwnProperty :: "jsval \<Rightarrow> string \<Rightarrow> bool" where
  "hasOwnProperty (JObj fs) k = (map_of fs k \<noteq> None)"
| "hasOwnProperty v k = False"

text \<open>\<^verbatim>\<open>Object.entries(v)\<close>: the own enumerable properties, in insertion order.\<close>

fun entries :: "jsval \<Rightarrow> (string \<times> jsval) list" where
  "entries (JObj fs) = fs"
| "entries v = []"

text \<open>A \<^verbatim>\<open>TypeError\<close> raised by the engine; the wording of its message is the engine's.\<close>

definition TypeError :: "string \<Rightarrow> jsval" where
  "TypeError msg = JErr (JStr ''TypeError'') (JStr msg)"

section \<open>The response sink and the effects on it\<close>

text \<open>
  A call either returns or throws. The sink \<^verbatim>\<open>res\<close> is an object of the host framework:
  its state is a value of an arbitrary type \<open>'w\<close>, each of its methods is a function on that
  state, and a member that is not a function is \<open>None\<close>. \<^verbatim>\<open>res.status(code)\<close> returns the
  sink itself (\<open>This\<close>, as Express does) or some other value, given by the \<^verbatim>\<open>json\<close> and
  \<^verbatim>\<open>send\<close> members that value has. \<^verbatim>\<open>res.headersSent\<close> is read as a truth value.
  The header method receives the key and the value \<open>v\<close> of the entry and stands for
  \<^verbatim>\<open>res.setHeader(k, String(v))\<close>.
\<close>

datatype 'a completion = Returned 'a | Threw jsval

datatype 'w target =
    This
  | Other "(jsval \<Rightarrow> 'w \<Rightarrow> unit completion \<times> 'w) option" "('w \<Rightarrow> unit completion \<times> 'w) option"

datatype 'w header_member =
    Absent
  | NotCallable
  | Callable "string \<Rightarrow> jsval \<Rightarrow> 'w \<Rightarrow> unit completion \<times> 'w"

record 'w sink =
  status :: "(int \<Rightarrow> 'w \<Rightarrow> 'w target completion \<times> 'w) option"
  json :: "(jsval \<Rightarrow> 'w \<Rightarrow> unit completion \<times> 'w) option"
  send :: "('w \<Rightarrow> unit completion \<times> 'w) option"
  setHeader :: "'w header_member"
  headersSent :: "'w \<Rightarrow> bool"

text \<open>
  What the library did: the calls it made on the sink and the calls it made to a logger,
  in order, next to the state of the host.
\<close>

datatype call =
    CallStatus int
  | CallJson jsval
  | CallSend
  | CallSetHeader string jsval

record 'w state =
  calls :: "call list"
  logged :: "(jsval \<times> string) list"
  world :: 'w

type_synonym ('w, 'a) prog = "'w state \<Rightarrow> 'a completion \<times> 'w state"

definition returns :: "'a \<Rightarrow> ('w, 'a) prog" where
  "returns a s = (Returned a, s)"

definition andThen :: "('w, 'a) prog \<Rightarrow> ('a \<Rightarrow> ('w, 'b) prog) \<Rightarrow> ('w, 'b) prog" where
  "andThen m f s = (case m s of (Returned a, s') \<Rightarrow> f a s' | (Threw e, s') \<Rightarrow> (Threw e, s'))"

definition tryCatch :: "('w, 'a) prog \<Rightarrow> (jsval \<Rightarrow> ('w, 'a) prog) \<Rightarrow> ('w, 'a) prog" where
  "tryCatch m h s = (case m s of (Returned a, s') \<Rightarrow> (Returned a, s') | (Threw e, s') \<Rightarrow> h e s')"

text \<open>\<^verbatim>\<open>res.headersSent\<close>; reading a property of \<^verbatim>\<open>null\<close> or \<^verbatim>\<open>undefined\<close> throws.\<close>

definition read_headersSent :: "'w sink option \<Rightarrow> ('w, bool) prog" where
  "read_headersSent res s =
     (case res of
        None \<Rightarrow> (Threw (TypeError ''Cannot read properties of undefined (reading headersSent)''), s)
      | Some r \<Rightarrow> (Returned (headersSent r (world s)), s))"

text \<open>\<^verbatim>\<open>res.status(code)\<close>.\<close>

definition call_status :: "'w sink option \<Rightarrow> int \<Rightarrow> ('w, 'w target) prog" where
  "call_status res code s =
     (case res of
        None \<Rightarrow> (Threw (TypeError ''Cannot read properties of undefined (reading status)''), s)
      | Some r \<Rightarrow>
          (case status r of
             None \<Rightarrow> (Threw (TypeError ''res.status is not a function''), s)
           | Some f \<Rightarrow>
               (case f code (world s) of
                  (c, w) \<Rightarrow> (c, s\<lparr>calls := calls s @ [CallStatus code], world := w\<rparr>))))"

text \<open>\<^verbatim>\<open>t.json(body)\<close> and \<^verbatim>\<open>t.send()\<close> on the value \<open>t\<close> that \<^verbatim>\<open>res.status(code)\<close> returned.\<close>

definition json_of :: "'w sink \<Rightarrow> 'w target \<Rightarrow> (jsval \<Rightarrow> 'w \<Rightarrow> unit completion \<times> 'w) option" where
  "json_of r t = (case t of This \<Rightarrow> json r | Other j sd \<Rightarrow> j)"

definition send_of :: "'w sink \<Rightarrow> 'w target \<Rightarrow> ('w \<Rightarrow> unit completion \<times> 'w) option" where
  "send_of r t = (case t of This \<Rightarrow> send r | Other j sd \<Rightarrow> sd)"

definition call_json :: "'w sink option \<Rightarrow> 'w target \<Rightarrow> jsval \<Rightarrow> ('w, unit) prog" where
  "call_json res t body s =
     (case (case res of None \<Rightarrow> None | Some r \<Rightarrow> json_of r t) of
        None \<Rightarrow> (Threw (TypeError ''res.status(...).json is not a function''), s)
      | Some f \<Rightarrow>
          (case f body (world s) of
             (c, w) \<Rightarrow> (c, s\<lparr>calls := calls s @ [CallJson body], world := w\<rparr>)))"

definition call_send :: "'w sink option \<Rightarrow> 'w target \<Rightarrow> ('w, unit) prog" where
  "call_send res t s =
     (case (case res of None \<Rightarrow> None | Some r \<Rightarrow> send_of r t) of
        None \<Rightarrow> (Threw (TypeError ''res.status(...).send is not a function''), s)
      | Some f \<Rightarrow>
          (case f (world s) of
             (c, w) \<Rightarrow> (c, s\<lparr>calls := calls s @ [CallSend], world := w\<rparr>)))"

text \<open>\<^verbatim>\<open>res.status(code).json(body)\<close> and \<^verbatim>\<open>res.status(code).send()\<close>.\<close>

definition status_json :: "'w sink option \<Rightarrow> int \<Rightarrow> jsval \<Rightarrow> ('w, unit) prog" where
  "status_json res code body = andThen (call_status res code) (\<lambda>t. call_json res t body)"

definition status_send :: "'w sink option \<Rightarrow> int \<Rightarrow> ('w, unit) prog" where
  "status_send res code = andThen (call_status res code) (\<lambda>t. call_send res t)"

text \<open>
  \<^verbatim>\<open>res.setHeader?.(k, String(v))\<close>: skipped when the member is \<^verbatim>\<open>undefined\<close> or \<^verbatim>\<open>null\<close>,
  a \<^verbatim>\<open>TypeError\<close> when it is something else that cannot be called.
\<close>

definition call_setHeader :: "'w sink \<Rightarrow> string \<Rightarrow> jsval \<Rightarrow> ('w, unit) prog" where
  "call_setHeader r k v s =
     (case setHeader r of
        Absent \<Rightarrow> (Returned (), s)
      | NotCallable \<Rightarrow> (Threw (TypeError ''res.setHeader is not a function''), s)
      | Callable f \<Rightarrow>
          (case f k v (world s) of
             (c, w) \<Rightarrow> (c, s\<lparr>calls := calls s @ [CallSetHeader k v], world := w\<rparr>)))"

section \<open>The resolver: \<^verbatim>\<open>resolveRouteResponse\<close>\<close>

text \<open>
  \<^verbatim>\<open>Number.isInteger(response?.http) && response.http >= 100 && response.http <= 599\<close>,
  and the number handed to \<^verbatim>\<open>res.status\<close> when that holds.
\<close>

definition Number_isInteger :: "jsval \<Rightarrow> bool" where
  "Number_isInteger v = (case v of JNum q \<Rightarrow> of_int \<lfloor>q\<rfloor> = q | _ \<Rightarrow> False)"

definition explicit :: "jsval \<Rightarrow> bool" where
  "explicit response =
     (Number_isInteger (get_prop response ''http'') \<and>
      (case get_prop response ''http'' of JNum q \<Rightarrow> 100 \<le> q \<and> q \<le> 599 | _ \<Rightarrow> False))"

definition status_number :: "jsval \<Rightarrow> int" where
  "status_number v = (case v of JNum q \<Rightarrow> \<lfloor>q\<rfloor> | _ \<Rightarrow> 0)"

text \<open>
  \<^verbatim>\<open>response.data === undefined || response.data === null || response.data === ""\<close>.
\<close>

definition no_data :: "jsval \<Rightarrow> bool" where
  "no_data d = (d = JUndefined \<or> d = JNull \<or> d = JStr [])"

text \<open>
  \<^verbatim>\<open>const http = explicit ? response.http : isOk ? (... ? 204 : 200) : 400\<close>.
\<close>

definition http_code :: "jsval \<Rightarrow> int" where
  "http_code response =
     (if explicit response then status_number (get_prop response ''http'')
      else if get_prop response ''status'' = JBool True
           then (if no_data (get_prop response ''data'') then 204 else 200)
           else 400)"

text \<open>
  The loop over \<^verbatim>\<open>Object.entries(response.headers)\<close>; each call sits in its own
  \<^verbatim>\<open>try\<close> with an empty \<^verbatim>\<open>catch\<close>.
\<close>

definition header_entries :: "jsval \<Rightarrow> (string \<times> jsval) list" where
  "header_entries response =
     (if truthy (get_prop response ''headers'') \<and> is_object (get_prop response ''headers'')
      then entries (get_prop response ''headers'') else [])"

fun apply_headers :: "'w sink \<Rightarrow> (string \<times> jsval) list \<Rightarrow> 'w state \<Rightarrow> 'w state" where
  "apply_headers r [] s = s"
| "apply_headers r ((k, v) # kvs) s =
     apply_headers r kvs (snd (tryCatch (call_setHeader r k v) (\<lambda>e. returns ()) s))"

text \<open>The body sent for \<^verbatim>\<open>status: false\<close>, from \<^verbatim>\<open>raw = response.data\<close>.\<close>

definition errBody :: "jsval \<Rightarrow> jsval" where
  "errBody raw =
     (case raw of
        JErr n m \<Rightarrow> JObj [(''error'', if truthy n then n else JStr ''Error''), (''message'', m)]
      | JObj fs \<Rightarrow>
          JObj ((if truthy (get_prop raw ''error'') then [(''error'', get_prop raw ''error'')] else []) @
                (if truthy (get_prop raw ''message'') then [(''message'', get_prop raw ''message'')] else []))
      | JStr m \<Rightarrow> JObj [(''error'', JStr ''RequestFailed''), (''message'', raw)]
      | _ \<Rightarrow> JObj [(''error'', JStr ''RequestFailed''), (''message'', JStr ''Request failed'')])"

definition MissingStatus :: jsval where
  "MissingStatus =
     JObj [(''error'', JStr ''MissingStatus''),
           (''message'', JStr ''Missing `status` on response object'')]"

definition InvalidStatusField :: jsval where
  "InvalidStatusField =
     JObj [(''status'', JBool False), (''error'', JStr ''InvalidStatusField''),
           (''message'', JStr ''`status` must be boolean'')]"

text \<open>\<^verbatim>\<open>error?.message || "Unexpected error"\<close>.\<close>

definition message_or :: "jsval \<Rightarrow> jsval" where
  "message_or error =
     (if truthy (get_prop error ''message'') then get_prop error ''message''
      else JStr ''Unexpected error'')"

definition UnhandledResponderError :: "jsval \<Rightarrow> jsval" where
  "UnhandledResponderError error =
     JObj [(''status'', JBool False), (''error'', JStr ''UnhandledResponderError''),
           (''message'', message_or error)]"

text \<open>\<^verbatim>\<open>response && typeof response === "object" && hasOwnProperty(response, "status")\<close>.\<close>

definition hasStatus :: "jsval \<Rightarrow> bool" where
  "hasStatus response =
     (truthy response \<and> is_object response \<and> hasOwnProperty response ''status'')"

text \<open>The \<^verbatim>\<open>try\<close> block of \<^verbatim>\<open>resolveRouteResponse\<close>, lines 181 to 246.\<close>

definition resolve_try :: "'w sink option \<Rightarrow> jsval \<Rightarrow> ('w, bool) prog" where
  "resolve_try res response s =
     (case res of
        None \<Rightarrow> (Returned False, s)
      | Some r \<Rightarrow>
          if status r = None \<or> send r = None then (Returned False, s)
          else if headersSent r (world s) then (Returned True, s)
          else if \<not> hasStatus response
          then andThen (status_json res 500 MissingStatus) (\<lambda>_. returns True) s
          else
            let isOk = (get_prop response ''status'' = JBool True);
                isFail = (get_prop response ''status'' = JBool False);
                http = http_code response;
                s1 = apply_headers r (header_entries response) s
            in if isOk
               then andThen
                      (if http = 204 then status_send res http
                       else status_json res http (get_prop response ''data''))
                      (\<lambda>_. returns True) s1
               else if isFail
               then andThen (status_json res http (errBody (get_prop response ''data'')))
                      (\<lambda>_. returns True) s1
               else andThen (status_json res 500 InvalidStatusField) (\<lambda>_. returns True) s1)"

text \<open>The \<^verbatim>\<open>catch\<close> block, lines 247 to 256, with its own \<^verbatim>\<open>try\<close> inside.\<close>

definition resolve_catch :: "'w sink option \<Rightarrow> jsval \<Rightarrow> ('w, bool) prog" where
  "resolve_catch res error =
     tryCatch
       (andThen (read_headersSent res)
          (\<lambda>sent. if \<not> sent
                   then andThen (status_json res 500 (UnhandledResponderError error))
                          (\<lambda>_. returns True)
                   else returns True))
       (\<lambda>_. returns True)"

definition resolveRouteResponse :: "'w sink option \<Rightarrow> jsval \<Rightarrow> ('w, bool) prog" where
  "resolveRouteResponse res response = tryCatch (resolve_try res response) (resolve_catch res)"

section \<open>The wrappers: \<^verbatim>\<open>wrapRoute\<close> and \<^verbatim>\<open>createResponder\<close>\<close>

text \<open>
  A logger is a function of the payload and the tag that may change the host and may throw;
  the options of a wrapper carry a tag and a logger, each of which may be missing. Of the
  request only \<^verbatim>\<open>method\<close> (the field \<open>req_method\<close>) and \<^verbatim>\<open>originalUrl\<close> are read; they are
  strings when present.
  An \<^verbatim>\<open>async\<close> function that returns is a promise that resolves, one that throws is a
  promise that rejects.
\<close>

type_synonym 'w LoggerFn = "jsval \<Rightarrow> string \<Rightarrow> 'w \<Rightarrow> unit completion \<times> 'w"

record 'w options =
  tag :: "string option"
  logger :: "'w LoggerFn option"

record request =
  req_method :: "string option"
  originalUrl :: "string option"

definition noopLogger :: "'w LoggerFn" where
  "noopLogger payload t w = (Returned (), w)"

definition call_logger :: "'w LoggerFn \<Rightarrow> jsval \<Rightarrow> string \<Rightarrow> ('w, unit) prog" where
  "call_logger l payload t s =
     (case l payload t (world s) of
        (c, w) \<Rightarrow> (c, s\<lparr>logged := logged s @ [(payload, t)], world := w\<rparr>))"

text \<open>\<^verbatim>\<open>await handler(req, res)\<close> and \<^verbatim>\<open>await workFn()\<close>: the work runs on the host.\<close>

definition await :: "('w \<Rightarrow> jsval completion \<times> 'w) \<Rightarrow> ('w, jsval) prog" where
  "await work s = (case work (world s) of (c, w) \<Rightarrow> (c, s\<lparr>world := w\<rparr>))"

text \<open>\<^verbatim>\<open>typeof options.logger === "function" ? options.logger : logger\<close>.\<close>

definition routeLogger :: "'w LoggerFn \<Rightarrow> 'w options \<Rightarrow> 'w LoggerFn" where
  "routeLogger dflt opts = (case logger opts of Some l \<Rightarrow> l | None \<Rightarrow> dflt)"

text \<open>\<^verbatim>\<open>req?.method ?? "?"\<close> and \<^verbatim>\<open>req?.originalUrl ?? "?"\<close>.\<close>

definition req_field :: "(request \<Rightarrow> string option) \<Rightarrow> request option \<Rightarrow> string" where
  "req_field field req =
     (case req of None \<Rightarrow> ''?'' | Some r \<Rightarrow> (case field r of None \<Rightarrow> ''?'' | Some v \<Rightarrow> v))"

text \<open>Lines 93 and 94: \<^verbatim>\<open>baseTag\<close> and \<^verbatim>\<open>tag\<close>.\<close>

definition baseTag :: "'w options \<Rightarrow> request option \<Rightarrow> string" where
  "baseTag opts req =
     (case tag opts of
        Some t \<Rightarrow> if t \<noteq> [] then t else req_field req_method req @ '' '' @ req_field originalUrl req
      | None \<Rightarrow> req_field req_method req @ '' '' @ req_field originalUrl req)"

definition route_tag :: "string \<Rightarrow> 'w options \<Rightarrow> request option \<Rightarrow> string" where
  "route_tag tagPrefix opts req =
     (if tagPrefix \<noteq> [] then tagPrefix @ baseTag opts req else baseTag opts req)"

text \<open>
  The handler returned by \<^verbatim>\<open>wrapRoute(handler, options)\<close> of the factory
  \<^verbatim>\<open>makeRouteUtils({logger, tagPrefix})\<close>, applied to \<^verbatim>\<open>(req, res)\<close>.
\<close>

definition wrapRoute ::
  "'w LoggerFn \<Rightarrow> string \<Rightarrow> (request option \<Rightarrow> 'w sink option \<Rightarrow> 'w \<Rightarrow> jsval completion \<times> 'w) \<Rightarrow>
   'w options \<Rightarrow> request option \<Rightarrow> 'w sink option \<Rightarrow> ('w, unit) prog" where
  "wrapRoute dflt tagPrefix handler opts req res =
     (let log = routeLogger dflt opts;
          t = route_tag tagPrefix opts req
      in tryCatch
           (andThen (await (handler req res))
              (\<lambda>response.
                 andThen (resolveRouteResponse res response)
                   (\<lambda>sent.
                      if sent then returns ()
                      else andThen
                             (call_logger log
                                (JObj [(''message'', JStr ''Unexpected response shape''),
                                       (''response'', response), (''route'', JStr t)]) t)
                             (\<lambda>_. andThen (read_headersSent res)
                                     (\<lambda>sent. if \<not> sent
                                              then status_json res 500
                                                     (JObj [(''error'', JStr ''UnexpectedResponseShape'')])
                                              else returns ())))))
           (\<lambda>err.
              andThen (call_logger log err (t @ ''/catch''))
                (\<lambda>_. andThen (read_headersSent res)
                        (\<lambda>sent. if \<not> sent
                                 then status_json res 500 (JObj [(''error'', message_or err)])
                                 else returns ()))))"

text \<open>\<^verbatim>\<open>tagBase || "createResponder"\<close>.\<close>

definition responder_tag :: "'w options \<Rightarrow> string" where
  "responder_tag opts =
     (case tag opts of
        Some t \<Rightarrow> if t \<noteq> [] then t else ''createResponder''
      | None \<Rightarrow> ''createResponder'')"

text \<open>
  The responder returned by \<^verbatim>\<open>createResponder(res, options)\<close> of the factory
  \<^verbatim>\<open>makeRouteUtils({logger})\<close>, applied to \<^verbatim>\<open>workFn\<close>.
\<close>

definition createResponder ::
  "'w LoggerFn \<Rightarrow> 'w sink option \<Rightarrow> 'w options \<Rightarrow> ('w \<Rightarrow> jsval completion \<times> 'w) \<Rightarrow> ('w, bool) prog" where
  "createResponder dflt res opts workFn =
     (let log = routeLogger dflt opts
      in tryCatch
           (andThen (await workFn)
              (\<lambda>response.
                 andThen (resolveRouteResponse res response)
                   (\<lambda>sent.
                      if sent then returns True
                      else andThen
                             (call_logger log
                                (JObj [(''message'', JStr ''Unexpected response shape''),
                                       (''response'', response)]) (responder_tag opts))
                             (\<lambda>_. andThen (read_headersSent res)
                                     (\<lambda>sent. andThen
                                               (if \<not> sent
                                                then status_json res 500
                                                       (JObj [(''status'', JBool False),
                                                              (''error'', JStr ''UnexpectedResponseShape'')])
                                                else returns ())
                                               (\<lambda>_. returns True))))))
           (\<lambda>error.
              andThen (call_logger log error (responder_tag opts @ ''/catch''))
                (\<lambda>_. andThen (read_headersSent res)
                        (\<lambda>sent. andThen
                                  (if \<not> sent
                                   then status_json res 500
                                          (JObj [(''status'', JBool False), (''error'', message_or error)])
                                   else returns ())
                                  (\<lambda>_. returns True)))))"

section \<open>Sinks and vocabulary of the statements\<close>

text \<open>
  The capability the resolver asks of \<^verbatim>\<open>res\<close> on line 182: \<^verbatim>\<open>res\<close> is truthy and its
  \<^verbatim>\<open>status\<close> and \<^verbatim>\<open>send\<close> members are functions.
\<close>

definition capable :: "'w sink option \<Rightarrow> bool" where
  "capable res = (case res of None \<Rightarrow> False | Some r \<Rightarrow> status r \<noteq> None \<and> send r \<noteq> None)"

text \<open>
  A sink that works: \<^verbatim>\<open>status\<close>, \<^verbatim>\<open>json\<close> and \<^verbatim>\<open>send\<close> are functions that never throw,
  and \<^verbatim>\<open>status\<close> returns the sink for chaining. Nothing is asked of \<^verbatim>\<open>setHeader\<close>.
\<close>

definition well_behaved :: "'w sink \<Rightarrow> bool" where
  "well_behaved r =
     ((\<exists>f. status r = Some f \<and> (\<forall>c w. fst (f c w) = Returned This)) \<and>
      (\<exists>j. json r = Some j \<and> (\<forall>b w. fst (j b w) = Returned ())) \<and>
      (\<exists>sd. send r = Some sd \<and> (\<forall>w. fst (sd w) = Returned ())))"

text \<open>
  The header calls the loop makes: one for each entry when \<^verbatim>\<open>setHeader\<close> is a function,
  whether or not the call throws, and none otherwise.
\<close>

definition header_calls :: "'w sink \<Rightarrow> jsval \<Rightarrow> call list" where
  "header_calls r response =
     (case setHeader r of
        Callable f \<Rightarrow> map (\<lambda>(k, v). CallSetHeader k v) (header_entries response)
      | _ \<Rightarrow> [])"

text \<open>A call that sets the status or a header, and so sends no body.\<close>

fun sends_nothing :: "call \<Rightarrow> bool" where
  "sends_nothing (CallStatus c) = True"
| "sends_nothing (CallSetHeader k v) = True"
| "sends_nothing (CallJson b) = False"
| "sends_nothing CallSend = False"

text \<open>
  An Express-like sink over one flag, \<^verbatim>\<open>headersSent\<close>, which \<^verbatim>\<open>json\<close> and \<^verbatim>\<open>send\<close> set;
  the same sink without a \<^verbatim>\<open>json\<close> member; the same sink with a \<^verbatim>\<open>json\<close> that throws;
  and an object with no members at all.
\<close>

definition express :: "bool sink" where
  "express =
     \<lparr>status = Some (\<lambda>c w. (Returned This, w)),
      json = Some (\<lambda>b w. (Returned (), True)),
      send = Some (\<lambda>w. (Returned (), True)),
      setHeader = Callable (\<lambda>k v w. (Returned (), w)),
      headersSent = (\<lambda>w. w)\<rparr>"

definition express_without_json :: "bool sink" where
  "express_without_json = express\<lparr>json := None\<rparr>"

definition write_failed :: jsval where
  "write_failed = JErr (JStr ''Error'') (JStr ''write failed'')"

definition express_json_throws :: "bool sink" where
  "express_json_throws = express\<lparr>json := Some (\<lambda>b w. (Threw write_failed, w))\<rparr>"

definition empty_object :: "bool sink" where
  "empty_object =
     \<lparr>status = None, json = None, send = None, setHeader = Absent, headersSent = (\<lambda>w. False)\<rparr>"

definition start :: "bool state" where
  "start = \<lparr>calls = [], logged = [], world = False\<rparr>"

definition no_options :: "bool options" where
  "no_options = \<lparr>tag = None, logger = None\<rparr>"

text \<open>A handler that throws \<^verbatim>\<open>new Error("boom")\<close>, and the request \<^verbatim>\<open>GET /x\<close>.\<close>

definition boom :: jsval where
  "boom = JErr (JStr ''Error'') (JStr ''boom'')"

definition throws_boom :: "bool \<Rightarrow> jsval completion \<times> bool" where
  "throws_boom w = (Threw boom, w)"

definition get_x :: request where
  "get_x = \<lparr>req_method = Some ''GET'', originalUrl = Some ''/x''\<rparr>"

text \<open>
  The error body as the specification words it, to be compared with \<open>errBody\<close>: for an
  object that is not an Error, the \<^verbatim>\<open>error\<close> and \<^verbatim>\<open>message\<close> fields are copied whenever
  they are present.
\<close>

definition errBody_as_specified :: "jsval \<Rightarrow> jsval" where
  "errBody_as_specified raw =
     (case raw of
        JErr n m \<Rightarrow> JObj [(''error'', if truthy n then n else JStr ''Error''), (''message'', m)]
      | JObj fs \<Rightarrow>
          JObj ((if hasOwnProperty raw ''error'' then [(''error'', get_prop raw ''error'')] else []) @
                (if hasOwnProperty raw ''message'' then [(''message'', get_prop raw ''message'')] else []))
      | JStr m \<Rightarrow> JObj [(''error'', JStr ''RequestFailed''), (''message'', raw)]
      | _ \<Rightarrow> JObj [(''error'', JStr ''RequestFailed''), (''message'', JStr ''Request failed'')])"

text \<open>
  A frame condition on a program: from every state, it leaves the list \<open>proj\<close> of the state
  (the calls on the sink, or the calls to the logger) as it was, up to new entries at the
  end that all satisfy \<open>P\<close>.
\<close>

definition only_adds :: "('w state \<Rightarrow> 'x list) \<Rightarrow> ('x \<Rightarrow> bool) \<Rightarrow> ('w, 'a) prog \<Rightarrow> bool" where
  "only_adds proj P m = (\<forall>s. \<exists>new. proj (snd (m s)) = proj s @ new \<and> list_all P new)"

text \<open>
  The effective tag as the specification words it, to be compared with \<open>route_tag\<close>: the
  explicit \<^verbatim>\<open>tag\<close> option whenever it is given, otherwise the synthesized string, and the
  prefix of the factory in front.
\<close>

definition route_tag_as_specified :: "string \<Rightarrow> 'w options \<Rightarrow> request option \<Rightarrow> string" where
  "route_tag_as_specified tagPrefix opts req =
     tagPrefix @
     (case tag opts of
        Some t \<Rightarrow> t
      | None \<Rightarrow> req_field req_method req @ '' '' @ req_field originalUrl req)"

section \<open>Auxiliary facts\<close>

lemma andThen_True_cases:
  "fst (andThen m (\<lambda>_. returns True) s) = Returned True \<or>
   (\<exists>e. fst (andThen m (\<lambda>_. returns True) s) = Threw e)"
  by (auto simp: andThen_def returns_def split: prod.splits completion.splits)

lemma tryCatch_fst:
  "fst (tryCatch m h s) =
     (case m s of (Returned a, s') \<Rightarrow> Returned a | (Threw e, s') \<Rightarrow> fst (h e s'))"
  by (auto simp: tryCatch_def split: prod.splits completion.splits)

lemma tryCatch_Returned: "fst (m s) = Returned a \<Longrightarrow> tryCatch m h s = m s"
  by (cases "m s") (simp add: tryCatch_def)

lemma resolve_catch_True: "fst (resolve_catch res e s) = Returned True"
  by (auto simp: resolve_catch_def tryCatch_def andThen_def returns_def
           split: prod.splits completion.splits)

lemma resolve_try_incapable:
  "\<not> capable res \<Longrightarrow> resolve_try res response s = (Returned False, s)"
  by (auto simp: resolve_try_def capable_def split: option.splits)

lemma resolve_try_capable:
  "capable res \<Longrightarrow>
   fst (resolve_try res response s) = Returned True \<or>
   (\<exists>e. fst (resolve_try res response s) = Threw e)"
  using andThen_True_cases
  by (auto simp: resolve_try_def capable_def Let_def split: option.splits)

lemma resolve_capable_True:
  "capable res \<Longrightarrow> fst (resolveRouteResponse res response s) = Returned True"
  using resolve_try_capable[of res response s] resolve_catch_True[of res]
  by (auto simp: resolveRouteResponse_def tryCatch_fst split: prod.splits completion.splits)

lemma resolve_incapable:
  "\<not> capable res \<Longrightarrow> resolveRouteResponse res response s = (Returned False, s)"
  by (simp add: resolveRouteResponse_def tryCatch_def resolve_try_incapable)

lemma resolve_never_throws: "\<exists>b. fst (resolveRouteResponse res response s) = Returned b"
  using resolve_capable_True[of res response s] resolve_incapable[of res response s]
  by (cases "capable res") auto

lemma apply_headers_calls:
  "calls (apply_headers r kvs s) =
     calls s @ (case setHeader r of
                  Callable f \<Rightarrow> map (\<lambda>(k, v). CallSetHeader k v) kvs
                | _ \<Rightarrow> [])"
proof (induction kvs arbitrary: s)
  case Nil
  then show ?case by (simp split: header_member.splits)
next
  case (Cons kv kvs)
  obtain k v where kv: "kv = (k, v)" by (cases kv)
  show ?case
    unfolding kv apply_headers.simps Cons.IH
    by (auto simp: tryCatch_def call_setHeader_def returns_def
             split: header_member.splits prod.splits completion.splits)
qed

lemma apply_headers_logged: "logged (apply_headers r kvs s) = logged s"
proof (induction kvs arbitrary: s)
  case Nil
  then show ?case by simp
next
  case (Cons kv kvs)
  obtain k v where kv: "kv = (k, v)" by (cases kv)
  show ?case
    unfolding kv apply_headers.simps Cons.IH
    by (auto simp: tryCatch_def call_setHeader_def returns_def
             split: header_member.splits prod.splits completion.splits)
qed

lemma status_json_well_behaved:
  assumes "well_behaved r"
  shows "fst (status_json (Some r) c body s) = Returned () \<and>
         calls (snd (status_json (Some r) c body s)) = calls s @ [CallStatus c, CallJson body] \<and>
         logged (snd (status_json (Some r) c body s)) = logged s"
proof -
  from assms obtain f j where f: "status r = Some f" "\<And>c w. fst (f c w) = Returned This"
    and j: "json r = Some j" "\<And>b w. fst (j b w) = Returned ()"
    unfolding well_behaved_def by blast
  obtain w1 where w1: "f c (world s) = (Returned This, w1)"
    using f(2)[of c "world s"] by (cases "f c (world s)") simp
  obtain w2 where w2: "j body w1 = (Returned (), w2)"
    using j(2)[of body w1] by (cases "j body w1") simp
  show ?thesis
    by (simp add: andThen_def status_json_def call_status_def call_json_def json_of_def
                  f(1) j(1) w1 w2)
qed

lemma status_send_well_behaved:
  assumes "well_behaved r"
  shows "fst (status_send (Some r) c s) = Returned () \<and>
         calls (snd (status_send (Some r) c s)) = calls s @ [CallStatus c, CallSend]"
proof -
  from assms obtain f sd where f: "status r = Some f" "\<And>c w. fst (f c w) = Returned This"
    and sd: "send r = Some sd" "\<And>w. fst (sd w) = Returned ()"
    unfolding well_behaved_def by blast
  obtain w1 where w1: "f c (world s) = (Returned This, w1)"
    using f(2)[of c "world s"] by (cases "f c (world s)") simp
  obtain w2 where w2: "sd w1 = (Returned (), w2)"
    using sd(2)[of w1] by (cases "sd w1") simp
  show ?thesis
    by (simp add: andThen_def status_send_def call_status_def call_send_def send_of_def
                  f(1) sd(1) w1 w2)
qed

lemma andThen_returns_True:
  "fst (m s) = Returned a \<Longrightarrow>
   andThen m (\<lambda>_. returns True) s = (Returned True, snd (m s))"
  by (cases "m s") (simp add: andThen_def returns_def)

lemma resolve_well_behaved:
  assumes wb: "well_behaved r" and fresh: "\<not> headersSent r (world s)"
    and hs: "hasStatus response"
  shows "fst (resolveRouteResponse (Some r) response s) = Returned True \<and>
         calls (snd (resolveRouteResponse (Some r) response s)) =
           calls s @ header_calls r response @
           (if get_prop response ''status'' = JBool True
            then (if http_code response = 204 then [CallStatus 204, CallSend]
                  else [CallStatus (http_code response), CallJson (get_prop response ''data'')])
            else if get_prop response ''status'' = JBool False
            then [CallStatus (http_code response), CallJson (errBody (get_prop response ''data''))]
            else [CallStatus 500, CallJson InvalidStatusField])"
proof -
  have cap: "status r \<noteq> None" "send r \<noteq> None"
    using wb unfolding well_behaved_def by auto
  let ?s1 = "apply_headers r (header_entries response) s"
  have s1: "calls ?s1 = calls s @ header_calls r response"
    by (simp add: apply_headers_calls header_calls_def)
  have tried: "fst (resolve_try (Some r) response s) = Returned True \<and>
         calls (snd (resolve_try (Some r) response s)) =
           calls s @ header_calls r response @
           (if get_prop response ''status'' = JBool True
            then (if http_code response = 204 then [CallStatus 204, CallSend]
                  else [CallStatus (http_code response), CallJson (get_prop response ''data'')])
            else if get_prop response ''status'' = JBool False
            then [CallStatus (http_code response), CallJson (errBody (get_prop response ''data''))]
            else [CallStatus 500, CallJson InvalidStatusField])"
    using cap fresh hs status_json_well_behaved[OF wb, of _ _ ?s1]
      status_send_well_behaved[OF wb, of _ ?s1] s1
    by (simp add: resolve_try_def Let_def andThen_returns_True)
  then show ?thesis
    by (simp add: resolveRouteResponse_def tryCatch_Returned)
qed

lemma boolean_status_hasStatus: "get_prop response ''status'' = JBool b \<Longrightarrow> hasStatus response"
  by (cases response) (auto simp: hasStatus_def split: option.splits if_splits)

lemma explicit_iff:
  "explicit response \<longleftrightarrow>
   (\<exists>n. get_prop response ''http'' = JNum (of_int n) \<and> 100 \<le> n \<and> n \<le> 599)"
proof
  assume "explicit response"
  then obtain q where q: "get_prop response ''http'' = JNum q" "q \<in> \<int>" "100 \<le> q" "q \<le> 599"
    by (auto simp: explicit_def Number_isInteger_def split: jsval.splits)
  from q(2) obtain n where n: "q = of_int n"
    by (auto elim: Ints_cases)
  have "100 \<le> n" "n \<le> 599"
    using q(3,4) unfolding n by simp_all
  with q(1) n show "\<exists>n. get_prop response ''http'' = JNum (of_int n) \<and> 100 \<le> n \<and> n \<le> 599"
    by blast
next
  assume "\<exists>n. get_prop response ''http'' = JNum (of_int n) \<and> 100 \<le> n \<and> n \<le> 599"
  then show "explicit response"
    by (auto simp: explicit_def Number_isInteger_def)
qed

lemma http_code_explicit:
  "get_prop response ''http'' = JNum (of_int n) \<Longrightarrow> 100 \<le> n \<Longrightarrow> n \<le> 599 \<Longrightarrow>
   http_code response = n"
  using explicit_iff[of response] by (auto simp: http_code_def status_number_def)

lemma http_code_default:
  "\<not> explicit response \<Longrightarrow>
   http_code response =
     (if get_prop response ''status'' = JBool True
      then (if no_data (get_prop response ''data'') then 204 else 200)
      else 400)"
  by (simp add: http_code_def)

lemma well_behaved_express: "well_behaved express"
  by (simp add: well_behaved_def express_def)

lemma calls_start: "calls start = []"
  by (simp add: start_def)

lemma fresh_start: "\<not> headersSent express (world start)"
  by (simp add: express_def start_def)

lemmas run_express =
  resolveRouteResponse_def tryCatch_def resolve_try_def express_def start_def
  hasStatus_def http_code_def explicit_def Number_isInteger_def no_data_def status_number_def
  header_entries_def status_send_def status_json_def andThen_def call_status_def call_send_def
  call_json_def call_setHeader_def json_of_def send_of_def returns_def errBody_def

lemma map_of_filter_keys:
  "P k \<Longrightarrow> map_of (filter (\<lambda>kv. P (fst kv)) fs) k = map_of fs k"
  by (induction fs) auto

lemma get_prop_filter_keys:
  assumes "filter (\<lambda>kv. P (fst kv)) fs1 = filter (\<lambda>kv. P (fst kv)) fs2" and "P k"
  shows "get_prop (JObj fs1) k = get_prop (JObj fs2) k"
    and "hasOwnProperty (JObj fs1) k = hasOwnProperty (JObj fs2) k"
proof -
  have "map_of fs1 k = map_of fs2 k"
    using map_of_filter_keys[of P k fs1] map_of_filter_keys[of P k fs2] assms by simp
  then show "get_prop (JObj fs1) k = get_prop (JObj fs2) k"
    and "hasOwnProperty (JObj fs1) k = hasOwnProperty (JObj fs2) k"
    by simp_all
qed

lemma only_addsI:
  "(\<And>s. \<exists>new. proj (snd (m s)) = proj s @ new \<and> list_all P new) \<Longrightarrow> only_adds proj P m"
  by (simp add: only_adds_def)

lemma only_addsD:
  "only_adds proj P m \<Longrightarrow> \<exists>new. proj (snd (m s)) = proj s @ new \<and> list_all P new"
  by (simp add: only_adds_def)

lemma only_adds_returns: "only_adds proj P (returns a)"
  by (simp add: only_adds_def returns_def)

lemma only_adds_andThen:
  assumes "only_adds proj P m" and "\<And>a. only_adds proj P (f a)"
  shows "only_adds proj P (andThen m f)"
proof (rule only_addsI)
  fix s
  obtain c s1 where ms: "m s = (c, s1)" by (cases "m s")
  from only_addsD[OF assms(1), of s] ms
  obtain n1 where n1: "proj s1 = proj s @ n1" "list_all P n1" by auto
  show "\<exists>new. proj (snd (andThen m f s)) = proj s @ new \<and> list_all P new"
  proof (cases c)
    case (Returned a)
    from only_addsD[OF assms(2), of a s1]
    obtain n2 where n2: "proj (snd (f a s1)) = proj s1 @ n2" "list_all P n2" by auto
    have "proj (snd (andThen m f s)) = proj s @ (n1 @ n2)"
      by (simp add: andThen_def ms Returned n1 n2)
    moreover have "list_all P (n1 @ n2)"
      using n1 n2 by simp
    ultimately show ?thesis by blast
  next
    case (Threw e)
    then show ?thesis
      using n1 by (auto simp: andThen_def ms)
  qed
qed

lemma only_adds_tryCatch:
  assumes "only_adds proj P m" and "\<And>e. only_adds proj P (h e)"
  shows "only_adds proj P (tryCatch m h)"
proof (rule only_addsI)
  fix s
  obtain c s1 where ms: "m s = (c, s1)" by (cases "m s")
  from only_addsD[OF assms(1), of s] ms
  obtain n1 where n1: "proj s1 = proj s @ n1" "list_all P n1" by auto
  show "\<exists>new. proj (snd (tryCatch m h s)) = proj s @ new \<and> list_all P new"
  proof (cases c)
    case (Threw e)
    from only_addsD[OF assms(2), of e s1]
    obtain n2 where n2: "proj (snd (h e s1)) = proj s1 @ n2" "list_all P n2" by auto
    have "proj (snd (tryCatch m h s)) = proj s @ (n1 @ n2)"
      by (simp add: tryCatch_def ms Threw n1 n2)
    moreover have "list_all P (n1 @ n2)"
      using n1 n2 by simp
    ultimately show ?thesis by blast
  next
    case (Returned a)
    then show ?thesis
      using n1 by (auto simp: tryCatch_def ms)
  qed
qed

lemma only_adds_after:
  assumes "proj s1 = proj s @ n1" and "list_all P n1" and "only_adds proj P m"
  shows "\<exists>new. proj (snd (m s1)) = proj s @ new \<and> list_all P new"
proof -
  from only_addsD[OF assms(3), of s1]
  obtain n2 where n2: "proj (snd (m s1)) = proj s1 @ n2" "list_all P n2" by auto
  have "proj (snd (m s1)) = proj s @ (n1 @ n2)" "list_all P (n1 @ n2)"
    using assms(1,2) n2 by simp_all
  then show ?thesis by blast
qed

lemma only_adds_read_headersSent: "only_adds proj P (read_headersSent res)"
  by (rule only_addsI) (simp add: read_headersSent_def split: option.splits)

text \<open>The calls on the sink leave the log alone.\<close>

lemma logged_call_status: "only_adds logged P (call_status res c)"
  by (rule only_addsI) (simp add: call_status_def split: option.splits prod.splits)

lemma logged_call_json: "only_adds logged P (call_json res t body)"
  by (rule only_addsI) (simp add: call_json_def split: option.splits prod.splits)

lemma logged_call_send: "only_adds logged P (call_send res t)"
  by (rule only_addsI) (simp add: call_send_def split: option.splits prod.splits)

lemma logged_status_json: "only_adds logged P (status_json res c body)"
  unfolding status_json_def
  by (intro only_adds_andThen logged_call_status logged_call_json)

lemma logged_status_send: "only_adds logged P (status_send res c)"
  unfolding status_send_def
  by (intro only_adds_andThen logged_call_status logged_call_send)

lemma logged_resolve_catch: "only_adds logged P (resolve_catch res e)"
  unfolding resolve_catch_def
  by (intro only_adds_tryCatch only_adds_andThen only_adds_read_headersSent)
     (auto intro: only_adds_andThen logged_status_json only_adds_returns)

lemma logged_commit:
  "only_adds logged P (andThen (status_json res c body) (\<lambda>_. returns True))"
  "only_adds logged P (andThen (status_send res c) (\<lambda>_. returns True))"
  by (intro only_adds_andThen logged_status_json logged_status_send only_adds_returns)+

lemma logged_resolve_try: "only_adds logged P (resolve_try (res :: 'w sink option) response)"
proof (rule only_addsI)
  fix s :: "'w state"
  show "\<exists>new. logged (snd (resolve_try res response s)) = logged s @ new \<and> list_all P new"
  proof (cases res)
    case None
    then show ?thesis by (simp add: resolve_try_def)
  next
    case (Some r)
    have hdr: "logged (apply_headers r (header_entries response) s) = logged s @ []"
      by (simp add: apply_headers_logged)
    have nil: "list_all P []" by simp
    show ?thesis
      unfolding Some
      using only_adds_after[OF hdr nil logged_commit(1)[of P "Some r"]]
        only_adds_after[OF hdr nil logged_commit(2)[of P "Some r"]]
        only_addsD[OF logged_commit(1)[of P "Some r"], of _ _ s]
      by (simp add: resolve_try_def Let_def)
  qed
qed

lemma logged_resolve: "only_adds logged P (resolveRouteResponse res response)"
  unfolding resolveRouteResponse_def
  by (intro only_adds_tryCatch logged_resolve_try logged_resolve_catch)

lemma logged_call_logger: "P (payload, t) \<Longrightarrow> only_adds logged P (call_logger l payload t)"
  by (rule only_addsI) (simp add: call_logger_def split: prod.splits)

lemma logged_await: "only_adds logged P (await work)"
  by (rule only_addsI) (simp add: await_def split: prod.splits)

text \<open>A sink whose \<^verbatim>\<open>status\<close> chains and that has no \<^verbatim>\<open>json\<close> never gets a body.\<close>

lemma calls_status_json_without_json:
  assumes "status r = Some f" and "\<forall>c w t. fst (f c w) = Returned t \<longrightarrow> t = This"
    and "json r = None"
  shows "only_adds calls sends_nothing (status_json (Some r) c body)"
proof (rule only_addsI)
  fix s :: "'a state"
  obtain x w where fw: "f c (world s) = (x, w)" by (cases "f c (world s)")
  have chained: "\<And>t. x = Returned t \<Longrightarrow> t = This"
    using assms(2) fw by (metis fst_conv)
  have "calls (snd (status_json (Some r) c body s)) = calls s @ [CallStatus c]"
    using chained
    by (cases x)
       (simp_all add: status_json_def andThen_def call_status_def call_json_def json_of_def
                      assms(1,3) fw)
  then show "\<exists>new. calls (snd (status_json (Some r) c body s)) = calls s @ new \<and>
      list_all sends_nothing new"
    by simp
qed

lemma calls_commit_without_json:
  assumes "status r = Some f" and "\<forall>c w t. fst (f c w) = Returned t \<longrightarrow> t = This"
    and "json r = None"
  shows "only_adds calls sends_nothing (andThen (status_json (Some r) c body) (\<lambda>_. returns True))"
  by (intro only_adds_andThen calls_status_json_without_json[OF assms] only_adds_returns)

lemma calls_resolve_catch_without_json:
  assumes "status r = Some f" and "\<forall>c w t. fst (f c w) = Returned t \<longrightarrow> t = This"
    and "json r = None"
  shows "only_adds calls sends_nothing (resolve_catch (Some r) e)"
  unfolding resolve_catch_def
  by (intro only_adds_tryCatch only_adds_andThen only_adds_read_headersSent)
     (auto intro: calls_commit_without_json[OF assms] only_adds_returns)

lemma calls_resolve_try_without_json:
  assumes "status r = Some f" and "\<forall>c w t. fst (f c w) = Returned t \<longrightarrow> t = This"
    and "json r = None"
    and "\<not> (get_prop response ''status'' = JBool True \<and> http_code response = 204)"
  shows "only_adds calls sends_nothing (resolve_try (Some r) response)"
proof (rule only_addsI)
  fix s :: "'a state"
  let ?hdr = "case setHeader r of
                Callable f \<Rightarrow> map (\<lambda>(k, v). CallSetHeader k v) (header_entries response)
              | _ \<Rightarrow> []"
  have hdr: "calls (apply_headers r (header_entries response) s) = calls s @ ?hdr"
    by (simp add: apply_headers_calls)
  have quiet: "list_all sends_nothing ?hdr"
    by (auto simp: list_all_iff split: header_member.splits)
  note commit = calls_commit_without_json[OF assms(1-3)]
  show "\<exists>new. calls (snd (resolve_try (Some r) response s)) = calls s @ new \<and>
      list_all sends_nothing new"
    using only_adds_after[OF hdr quiet commit] only_addsD[OF commit, of _ _ s] assms(4)
    by (simp add: resolve_try_def Let_def)
qed

lemmas run_wrapRoute =
  wrapRoute_def routeLogger_def route_tag_def baseTag_def req_field_def call_logger_def
  await_def read_headersSent_def message_or_def noopLogger_def no_options_def throws_boom_def
  boom_def get_x_def Let_def

section \<open>The claims\<close>

subsection \<open>C1\<close>

text \<open>
  C1. On a working, uncommitted sink, a result with a boolean \<^verbatim>\<open>status\<close> and no valid
  explicit \<^verbatim>\<open>http\<close> (no integer from 100 to 599) is answered, after the header calls,
  by exactly one status call and one body call: 204 and \<^verbatim>\<open>send()\<close> without a body when
  \<^verbatim>\<open>status\<close> is true and \<^verbatim>\<open>data\<close> is \<^verbatim>\<open>undefined\<close>, \<^verbatim>\<open>null\<close> or the empty string;
  200 and \<^verbatim>\<open>json(data)\<close> with \<^verbatim>\<open>data\<close> as it is when \<^verbatim>\<open>status\<close> is true and \<^verbatim>\<open>data\<close> is
  anything else; 400 when \<^verbatim>\<open>status\<close> is false. The resolver returns \<^verbatim>\<open>true\<close>.
\<close>

theorem resolve_default_mapping:
  assumes "well_behaved r" and "\<not> headersSent r (world s)"
    and "get_prop response ''status'' = JBool b"
    and "\<not> (\<exists>n. get_prop response ''http'' = JNum (of_int n) \<and> 100 \<le> n \<and> n \<le> 599)"
  shows "fst (resolveRouteResponse (Some r) response s) = Returned True \<and>
         calls (snd (resolveRouteResponse (Some r) response s)) =
           calls s @ header_calls r response @
           (if b then
              (if get_prop response ''data'' = JUndefined \<or> get_prop response ''data'' = JNull \<or>
                  get_prop response ''data'' = JStr ''''
               then [CallStatus 204, CallSend]
               else [CallStatus 200, CallJson (get_prop response ''data'')])
            else [CallStatus 400, CallJson (errBody (get_prop response ''data''))])"
proof -
  have ne: "\<not> explicit response"
    using assms(4) by (simp add: explicit_iff)
  show ?thesis
    using resolve_well_behaved[OF assms(1,2) boolean_status_hasStatus[OF assms(3)]] assms(3)
    by (cases b) (simp_all add: http_code_default[OF ne] no_data_def)
qed

theorem resolve_default_mapping_witness:
  "well_behaved express \<and> \<not> headersSent express (world start) \<and>
   calls (snd (resolveRouteResponse (Some express)
      (JObj [(''status'', JBool True), (''data'', JNull)]) start)) = [CallStatus 204, CallSend] \<and>
   calls (snd (resolveRouteResponse (Some express)
      (JObj [(''status'', JBool True), (''data'', JObj [(''id'', JNum 1)])]) start)) =
     [CallStatus 200, CallJson (JObj [(''id'', JNum 1)])] \<and>
   calls (snd (resolveRouteResponse (Some express)
      (JObj [(''status'', JBool False), (''data'', JStr ''oops'')]) start)) =
     [CallStatus 400, CallJson (JObj [(''error'', JStr ''RequestFailed''), (''message'', JStr ''oops'')])]"
proof -
  note fresh = fresh_start
  have a: "get_prop (JObj [(''status'', JBool True), (''data'', JNull)]) ''status'' = JBool True"
    and b: "get_prop (JObj [(''status'', JBool True), (''data'', JObj [(''id'', JNum 1)])]) ''status'' = JBool True"
    and c: "get_prop (JObj [(''status'', JBool False), (''data'', JStr ''oops'')]) ''status'' = JBool False"
    by simp_all
  have hdr: "\<And>fs. map_of fs ''headers'' = None \<Longrightarrow> header_calls express (JObj fs) = []"
    by (simp add: header_calls_def header_entries_def express_def)
  show ?thesis
    using resolve_default_mapping[OF well_behaved_express fresh a]
      resolve_default_mapping[OF well_behaved_express fresh b]
      resolve_default_mapping[OF well_behaved_express fresh c]
    by (simp add: well_behaved_express fresh hdr calls_start errBody_def)
qed

subsection \<open>C2\<close>

text \<open>
  C2. On a working, uncommitted sink and for a result with a boolean \<^verbatim>\<open>status\<close>: when
  \<^verbatim>\<open>http\<close> is an integer \<open>n\<close> from 100 to 599, the one status call made is
  \<^verbatim>\<open>status(n)\<close>, whatever \<^verbatim>\<open>status\<close> and \<^verbatim>\<open>data\<close> are; when \<^verbatim>\<open>http\<close> is a number that is
  not an integer, or is below 100 or above 599 (an infinity included), it is ignored and the
  default mapping to 204, 200 and 400 applies.
\<close>

theorem resolve_explicit_http:
  assumes "well_behaved r" and "\<not> headersSent r (world s)"
    and "get_prop response ''status'' = JBool b"
  shows "(get_prop response ''http'' = JNum (of_int n) \<and> 100 \<le> n \<and> n \<le> 599 \<longrightarrow>
            calls (snd (resolveRouteResponse (Some r) response s)) =
              calls s @ header_calls r response @
              [CallStatus n,
               if b then (if n = 204 then CallSend else CallJson (get_prop response ''data''))
               else CallJson (errBody (get_prop response ''data''))]) \<and>
         (get_prop response ''http'' = JNum q \<and> (q \<notin> \<int> \<or> q < 100 \<or> 599 < q) \<or>
          get_prop response ''http'' = JInfinity p \<longrightarrow>
            calls (snd (resolveRouteResponse (Some r) response s)) =
              calls s @ header_calls r response @
              (if b then
                 (if get_prop response ''data'' = JUndefined \<or> get_prop response ''data'' = JNull \<or>
                     get_prop response ''data'' = JStr ''''
                  then [CallStatus 204, CallSend]
                  else [CallStatus 200, CallJson (get_prop response ''data'')])
               else [CallStatus 400, CallJson (errBody (get_prop response ''data''))]))"
proof (intro conjI impI)
  assume h: "get_prop response ''http'' = JNum (of_int n) \<and> 100 \<le> n \<and> n \<le> 599"
  then have code: "http_code response = n"
    by (simp add: http_code_explicit)
  show "calls (snd (resolveRouteResponse (Some r) response s)) =
              calls s @ header_calls r response @
              [CallStatus n,
               if b then (if n = 204 then CallSend else CallJson (get_prop response ''data''))
               else CallJson (errBody (get_prop response ''data''))]"
    using resolve_well_behaved[OF assms(1,2) boolean_status_hasStatus[OF assms(3)]] assms(3)
    by (cases b) (simp_all add: code)
next
  assume h: "get_prop response ''http'' = JNum q \<and> (q \<notin> \<int> \<or> q < 100 \<or> 599 < q) \<or>
      get_prop response ''http'' = JInfinity p"
  then have ne: "\<not> explicit response"
    by (auto simp: explicit_def Number_isInteger_def)
  show "calls (snd (resolveRouteResponse (Some r) response s)) =
              calls s @ header_calls r response @
              (if b then
                 (if get_prop response ''data'' = JUndefined \<or> get_prop response ''data'' = JNull \<or>
                     get_prop response ''data'' = JStr ''''
                  then [CallStatus 204, CallSend]
                  else [CallStatus 200, CallJson (get_prop response ''data'')])
               else [CallStatus 400, CallJson (errBody (get_prop response ''data''))])"
    using resolve_well_behaved[OF assms(1,2) boolean_status_hasStatus[OF assms(3)]] assms(3)
    by (cases b) (simp_all add: http_code_default[OF ne] no_data_def)
qed

theorem resolve_explicit_http_witness:
  "well_behaved express \<and> \<not> headersSent express (world start) \<and>
   (99 :: rat) < 100 \<and> (599 :: rat) < 600 \<and> (7 / 2 :: rat) \<notin> \<int> \<and>
   calls (snd (resolveRouteResponse (Some express)
      (JObj [(''status'', JBool False),
             (''data'', JObj [(''error'', JStr ''ValidationError''), (''message'', JStr ''Name required'')]),
             (''http'', JNum 422)]) start)) =
     [CallStatus 422,
      CallJson (JObj [(''error'', JStr ''ValidationError''), (''message'', JStr ''Name required'')])] \<and>
   calls (snd (resolveRouteResponse (Some express)
      (JObj [(''status'', JBool True), (''data'', JStr ''pong''), (''http'', JNum 99)]) start)) =
     [CallStatus 200, CallJson (JStr ''pong'')] \<and>
   calls (snd (resolveRouteResponse (Some express)
      (JObj [(''status'', JBool False), (''data'', JStr ''pong''), (''http'', JNum 600)]) start)) =
     [CallStatus 400, CallJson (JObj [(''error'', JStr ''RequestFailed''), (''message'', JStr ''pong'')])] \<and>
   calls (snd (resolveRouteResponse (Some express)
      (JObj [(''status'', JBool True), (''http'', JNum (7 / 2))]) start)) =
     [CallStatus 204, CallSend]"
proof -
  note fresh = fresh_start
  have frac: "(7 / 2 :: rat) \<notin> \<int>"
  proof
    assume "(7 / 2 :: rat) \<in> \<int>"
    then obtain n :: int where "(7 / 2 :: rat) = of_int n"
      by (auto elim: Ints_cases)
    then have "(7 :: rat) = of_int (2 * n)"
      by simp
    then have "(7 :: int) = 2 * n"
      using of_int_eq_iff[where 'a = rat, of 7 "2 * n"] by simp
    then show False
      by presburger
  qed
  have a: "get_prop (JObj [(''status'', JBool False),
             (''data'', JObj [(''error'', JStr ''ValidationError''), (''message'', JStr ''Name required'')]),
             (''http'', JNum 422)]) ''status'' = JBool False"
    and b: "get_prop (JObj [(''status'', JBool True), (''data'', JStr ''pong''), (''http'', JNum 99)])
             ''status'' = JBool True"
    and c: "get_prop (JObj [(''status'', JBool False), (''data'', JStr ''pong''), (''http'', JNum 600)])
             ''status'' = JBool False"
    and d: "get_prop (JObj [(''status'', JBool True), (''http'', JNum (7 / 2))]) ''status'' = JBool True"
    by simp_all
  have hdr: "\<And>fs. map_of fs ''headers'' = None \<Longrightarrow> header_calls express (JObj fs) = []"
    by (simp add: header_calls_def header_entries_def express_def)
  show ?thesis
    using resolve_explicit_http[OF well_behaved_express fresh a, of 422 0 True]
      resolve_explicit_http[OF well_behaved_express fresh b, of 0 99 True]
      resolve_explicit_http[OF well_behaved_express fresh c, of 0 600 True]
      resolve_explicit_http[OF well_behaved_express fresh d, of 0 "7 / 2" True] frac
    by (simp add: well_behaved_express fresh hdr calls_start errBody_def)
qed

subsection \<open>C3\<close>

text \<open>
  C3, as stated, fails: for \<^verbatim>\<open>{status: false, data: {error: 0, message: "m"}}\<close> the
  field \<^verbatim>\<open>error\<close> is present in \<^verbatim>\<open>data\<close>, and the body sent is \<^verbatim>\<open>{message: "m"}\<close>, not
  \<^verbatim>\<open>{error: 0, message: "m"}\<close>: line 235 copies the field when its value is truthy.
\<close>

theorem failure_body_counterexample:
  "calls (snd (resolveRouteResponse (Some express)
      (JObj [(''status'', JBool False),
             (''data'', JObj [(''error'', JNum 0), (''message'', JStr ''m'')])]) start)) =
     [CallStatus 400, CallJson (JObj [(''message'', JStr ''m'')])] \<and>
   errBody_as_specified (JObj [(''error'', JNum 0), (''message'', JStr ''m'')]) =
     JObj [(''error'', JNum 0), (''message'', JStr ''m'')] \<and>
   calls (snd (resolveRouteResponse (Some express)
      (JObj [(''status'', JBool False),
             (''data'', JObj [(''error'', JNum 0), (''message'', JStr ''m'')])]) start)) \<noteq>
     [CallStatus 400,
      CallJson (errBody_as_specified (JObj [(''error'', JNum 0), (''message'', JStr ''m'')]))]"
  by (simp add: run_express errBody_as_specified_def)

text \<open>
  C3, amended. On a working, uncommitted sink, a result with \<^verbatim>\<open>status\<close> strictly false is
  answered by one status call and one \<^verbatim>\<open>json(body)\<close>, where \<open>body\<close> comes from \<^verbatim>\<open>data\<close>:
  for an Error, \<^verbatim>\<open>{error: name || "Error", message}\<close>; for any other object, the
  \<^verbatim>\<open>error\<close> field if its value is truthy, then the \<^verbatim>\<open>message\<close> field if its value is
  truthy, and no other field; for a string, \<^verbatim>\<open>{error: "RequestFailed", message: data}\<close>;
  for every other value, \<^verbatim>\<open>{error: "RequestFailed", message: "Request failed"}\<close>.
\<close>

theorem resolve_failure_body:
  assumes "well_behaved r" and "\<not> headersSent r (world s)"
    and "get_prop response ''status'' = JBool False"
  shows "\<exists>body.
     calls (snd (resolveRouteResponse (Some r) response s)) =
       calls s @ header_calls r response @ [CallStatus (http_code response), CallJson body] \<and>
     (\<forall>n m. get_prop response ''data'' = JErr n m \<longrightarrow>
        body = JObj [(''error'', if truthy n then n else JStr ''Error''), (''message'', m)]) \<and>
     (\<forall>fs. get_prop response ''data'' = JObj fs \<longrightarrow>
        body = JObj ((if truthy (get_prop (JObj fs) ''error'')
                      then [(''error'', get_prop (JObj fs) ''error'')] else []) @
                     (if truthy (get_prop (JObj fs) ''message'')
                      then [(''message'', get_prop (JObj fs) ''message'')] else []))) \<and>
     (\<forall>m. get_prop response ''data'' = JStr m \<longrightarrow>
        body = JObj [(''error'', JStr ''RequestFailed''), (''message'', JStr m)]) \<and>
     (\<not> is_object (get_prop response ''data'') \<and> (\<forall>m. get_prop response ''data'' \<noteq> JStr m) \<longrightarrow>
        body = JObj [(''error'', JStr ''RequestFailed''), (''message'', JStr ''Request failed'')])"
proof (intro exI[of _ "errBody (get_prop response ''data'')"] conjI)
  show "calls (snd (resolveRouteResponse (Some r) response s)) =
       calls s @ header_calls r response @
       [CallStatus (http_code response), CallJson (errBody (get_prop response ''data''))]"
    using resolve_well_behaved[OF assms(1,2) boolean_status_hasStatus[OF assms(3)]] assms(3)
    by simp
qed (auto simp: errBody_def split: jsval.splits)

theorem resolve_failure_body_witness:
  "well_behaved express \<and> \<not> headersSent express (world start) \<and>
   calls (snd (resolveRouteResponse (Some express)
      (JObj [(''status'', JBool False),
             (''data'', JObj [(''error'', JStr ''E''), (''message'', JStr ''m''), (''stack'', JStr ''at f'')])])
      start)) =
     [CallStatus 400, CallJson (JObj [(''error'', JStr ''E''), (''message'', JStr ''m'')])] \<and>
   calls (snd (resolveRouteResponse (Some express)
      (JObj [(''status'', JBool False), (''data'', JErr (JStr []) (JStr ''boom''))]) start)) =
     [CallStatus 400, CallJson (JObj [(''error'', JStr ''Error''), (''message'', JStr ''boom'')])] \<and>
   calls (snd (resolveRouteResponse (Some express)
      (JObj [(''status'', JBool False), (''data'', JNum 7)]) start)) =
     [CallStatus 400, CallJson (JObj [(''error'', JStr ''RequestFailed''), (''message'', JStr ''Request failed'')])]"
proof -
  note fresh = fresh_start
  have a: "get_prop (JObj [(''status'', JBool False),
             (''data'', JObj [(''error'', JStr ''E''), (''message'', JStr ''m''), (''stack'', JStr ''at f'')])])
             ''status'' = JBool False"
    and b: "get_prop (JObj [(''status'', JBool False), (''data'', JErr (JStr []) (JStr ''boom''))])
             ''status'' = JBool False"
    and c: "get_prop (JObj [(''status'', JBool False), (''data'', JNum 7)]) ''status'' = JBool False"
    by simp_all
  have hdr: "\<And>fs. map_of fs ''headers'' = None \<Longrightarrow> header_calls express (JObj fs) = []"
    by (simp add: header_calls_def header_entries_def express_def)
  have code: "\<And>d. http_code (JObj [(''status'', JBool False), (''data'', d)]) = 400"
    by (simp add: http_code_def explicit_def Number_isInteger_def)
  show ?thesis
    using resolve_failure_body[OF well_behaved_express fresh a]
      resolve_failure_body[OF well_behaved_express fresh b]
      resolve_failure_body[OF well_behaved_express fresh c]
    by (simp add: well_behaved_express fresh hdr calls_start code)
qed

subsection \<open>C4\<close>

text \<open>
  C4. The claim fails on the wrappers. A handler throws \<^verbatim>\<open>new Error("boom")\<close> and the
  \<^verbatim>\<open>json\<close> method of the sink throws: the \<^verbatim>\<open>catch\<close> block of \<^verbatim>\<open>wrapRoute\<close> logs, calls
  \<^verbatim>\<open>res.status(500).json(...)\<close> outside any \<^verbatim>\<open>try\<close>, and the error of the sink leaves the
  handler: its promise rejects. The responder of \<^verbatim>\<open>createResponder\<close> rejects in the same way
  and does not resolve to \<^verbatim>\<open>true\<close>. \<^verbatim>\<open>resolveRouteResponse\<close> on the same sink returns
  \<^verbatim>\<open>true\<close>. The last line is the other way out: a sink without a \<^verbatim>\<open>status\<close> function makes
  the resolver return \<^verbatim>\<open>false\<close>, and both blocks of \<^verbatim>\<open>wrapRoute\<close> then call the missing
  \<^verbatim>\<open>res.status\<close>.
\<close>

theorem wrappers_reject_when_sink_throws:
  "fst (wrapRoute noopLogger [] (\<lambda>req res. throws_boom) no_options (Some get_x)
          (Some express_json_throws) start) = Threw write_failed \<and>
   fst (createResponder noopLogger (Some express_json_throws) no_options throws_boom start) =
     Threw write_failed \<and>
   fst (resolveRouteResponse (Some express_json_throws) (JObj [(''status'', JBool False)]) start) =
     Returned True \<and>
   fst (wrapRoute noopLogger [] (\<lambda>req res w. (Returned (JObj [(''status'', JBool True)]), w))
          no_options (Some get_x) (Some empty_object) start) =
     Threw (TypeError ''res.status is not a function'')"
  by (simp add: wrapRoute_def createResponder_def run_express express_json_throws_def
      no_options_def throws_boom_def get_x_def routeLogger_def noopLogger_def route_tag_def
      baseTag_def req_field_def responder_tag_def call_logger_def await_def read_headersSent_def
      resolve_catch_def message_or_def boom_def Let_def empty_object_def)

subsection \<open>C5\<close>

text \<open>
  C5. \<^verbatim>\<open>resolveRouteResponse\<close> returns \<^verbatim>\<open>false\<close> exactly when the sink lacks the minimal
  capability (\<^verbatim>\<open>res\<close> is missing, or its \<^verbatim>\<open>status\<close> or \<^verbatim>\<open>send\<close> member is not a
  function); then the state is the one before the call: no call on the sink, none to a
  logger, no change of the host. In every other case, a response sent, a sink committed
  before the call or a sink that throws, it returns \<^verbatim>\<open>true\<close>.
\<close>

theorem resolve_false_iff_incapable:
  "(fst (resolveRouteResponse res response s) = Returned False \<longleftrightarrow> \<not> capable res) \<and>
   (\<not> capable res \<longrightarrow> snd (resolveRouteResponse res response s) = s) \<and>
   (capable res \<longrightarrow> fst (resolveRouteResponse res response s) = Returned True)"
  using resolve_capable_True[of res response s] resolve_incapable[of res response s]
  by (cases "capable res") auto

theorem resolve_false_iff_incapable_witness:
  "\<not> capable (Some empty_object) \<and> \<not> capable (None :: bool sink option) \<and>
   capable (Some express) \<and>
   resolveRouteResponse (Some empty_object) (JObj [(''status'', JBool True)]) start =
     (Returned False, start) \<and>
   resolveRouteResponse None (JObj [(''status'', JBool True)]) start = (Returned False, start) \<and>
   fst (resolveRouteResponse (Some express) JNull start) = Returned True"
  using resolve_false_iff_incapable[of "Some empty_object" "JObj [(''status'', JBool True)]" start]
    resolve_false_iff_incapable[of None "JObj [(''status'', JBool True)]" start]
    resolve_false_iff_incapable[of "Some express" JNull start]
  by (simp add: capable_def empty_object_def express_def prod_eq_iff)

subsection \<open>C6\<close>

text \<open>
  C6. On a capable sink that reports a committed response, \<^verbatim>\<open>resolveRouteResponse\<close>
  returns \<^verbatim>\<open>true\<close> and leaves the state as it was, whatever the result value: no
  \<^verbatim>\<open>status\<close>, \<^verbatim>\<open>json\<close>, \<^verbatim>\<open>send\<close> or \<^verbatim>\<open>setHeader\<close> call is made. The witness runs the
  resolver twice on an Express-like sink: the second call changes nothing.
\<close>

theorem resolve_committed_noop:
  assumes "capable (Some r)" and "headersSent r (world s)"
  shows "resolveRouteResponse (Some r) response s = (Returned True, s)"
  using assms by (simp add: resolveRouteResponse_def tryCatch_def resolve_try_def capable_def)

theorem resolve_committed_noop_witness:
  "capable (Some express) \<and>
   headersSent express (world (snd (resolveRouteResponse (Some express) (JObj [(''status'', JBool True)]) start))) \<and>
   resolveRouteResponse (Some express) (JObj [(''status'', JBool False)])
     (snd (resolveRouteResponse (Some express) (JObj [(''status'', JBool True)]) start)) =
   (Returned True, \<lparr>calls = [CallStatus 204, CallSend], logged = [], world = True\<rparr>)"
proof -
  have first: "resolveRouteResponse (Some express) (JObj [(''status'', JBool True)]) start =
      (Returned True, \<lparr>calls = [CallStatus 204, CallSend], logged = [], world = True\<rparr>)"
    by (simp add: resolveRouteResponse_def tryCatch_def resolve_try_def express_def start_def
        hasStatus_def http_code_def explicit_def Number_isInteger_def no_data_def
        header_entries_def status_send_def andThen_def call_status_def call_send_def
        send_of_def returns_def)
  have cap: "capable (Some express)"
    by (simp add: capable_def express_def)
  have sent: "headersSent express (world (snd (resolveRouteResponse (Some express) (JObj [(''status'', JBool True)]) start)))"
    by (simp add: first) (simp add: express_def)
  show ?thesis
    using cap sent resolve_committed_noop[OF cap sent, of "JObj [(''status'', JBool False)]"]
    by (simp add: first)
qed

subsection \<open>C7\<close>

text \<open>
  C7. The handler passed to \<^verbatim>\<open>wrapRoute\<close> throws \<open>err\<close>, and the logger in effect returns
  when called with it. Then the returned handler completes, it has called the logger exactly
  once, with \<open>err\<close> and the effective tag followed by \<^verbatim>\<open>/catch\<close>, and on a working sink
  it has made no call if the sink was committed by then, and otherwise exactly
  \<^verbatim>\<open>status(500)\<close> and \<^verbatim>\<open>json({error: m})\<close>, where \<open>m\<close> is the \<^verbatim>\<open>message\<close> of \<open>err\<close>, or
  \<^verbatim>\<open>"Unexpected error"\<close> when \<open>err\<close> has none (no message, or an empty one: the test is
  \<^verbatim>\<open>err?.message || ...\<close>). The body has the one field \<^verbatim>\<open>error\<close> and no \<^verbatim>\<open>status\<close>.
\<close>

theorem wrapRoute_handler_throws:
  assumes "handler req (Some r) (world s) = (Threw err, w1)"
    and "routeLogger dflt opts err (route_tag tagPrefix opts req @ ''/catch'') w1 = (Returned (), w2)"
    and "well_behaved r"
  shows "fst (wrapRoute dflt tagPrefix handler opts req (Some r) s) = Returned () \<and>
         logged (snd (wrapRoute dflt tagPrefix handler opts req (Some r) s)) =
           logged s @ [(err, route_tag tagPrefix opts req @ ''/catch'')] \<and>
         calls (snd (wrapRoute dflt tagPrefix handler opts req (Some r) s)) =
           calls s @
           (if headersSent r w2 then []
            else [CallStatus 500,
                  CallJson (JObj [(''error'',
                    if truthy (get_prop err ''message'') then get_prop err ''message''
                    else JStr ''Unexpected error'')])])"
proof -
  let ?t = "route_tag tagPrefix opts req @ ''/catch''"
  let ?s1 = "s\<lparr>world := w1\<rparr>"
  let ?s2 = "?s1\<lparr>logged := logged ?s1 @ [(err, ?t)], world := w2\<rparr>"
  let ?body = "JObj [(''error'', message_or err)]"
  have thrown: "await (handler req (Some r)) s = (Threw err, ?s1)"
    by (simp add: await_def assms(1))
  have log: "call_logger (routeLogger dflt opts) err ?t ?s1 = (Returned (), ?s2)"
    by (simp add: call_logger_def assms(2))
  have run: "wrapRoute dflt tagPrefix handler opts req (Some r) s =
      (if headersSent r w2 then (Returned (), ?s2) else status_json (Some r) 500 ?body ?s2)"
    by (simp add: wrapRoute_def Let_def tryCatch_def thrown andThen_def log read_headersSent_def
        returns_def)
  show ?thesis
    using status_json_well_behaved[OF assms(3), of 500 ?body ?s2]
    by (simp add: run message_or_def)
qed

theorem wrapRoute_handler_throws_witness:
  "throws_boom (world start) = (Threw boom, False) \<and> well_behaved express \<and>
   wrapRoute noopLogger ''/routes'' (\<lambda>req res. throws_boom) no_options (Some get_x)
     (Some express) start =
   (Returned (),
    \<lparr>calls = [CallStatus 500, CallJson (JObj [(''error'', JStr ''boom'')])],
     logged = [(boom, ''/routesGET /x/catch'')], world = True\<rparr>)"
proof -
  have h: "(\<lambda>req res. throws_boom) (Some get_x) (Some express) (world start) = (Threw boom, False)"
    by (simp add: throws_boom_def start_def)
  have l: "routeLogger noopLogger no_options boom
      (route_tag ''/routes'' no_options (Some get_x) @ ''/catch'') False = (Returned (), False)"
    by (simp add: routeLogger_def noopLogger_def no_options_def)
  have run: "wrapRoute noopLogger ''/routes'' (\<lambda>req res. throws_boom) no_options (Some get_x)
     (Some express) start =
   (Returned (),
    \<lparr>calls = [CallStatus 500, CallJson (JObj [(''error'', JStr ''boom'')])],
     logged = [(boom, ''/routesGET /x/catch'')], world = True\<rparr>)"
    by (simp add: run_wrapRoute run_express)
  show ?thesis
    using wrapRoute_handler_throws[of "\<lambda>req res. throws_boom", OF h l well_behaved_express] h run
    by (simp add: well_behaved_express)
qed

subsection \<open>C8\<close>

text \<open>
  C8, as stated, fails: with the option \<^verbatim>\<open>tag: ""\<close> given, the prefix \<^verbatim>\<open>P\<close> and the
  request \<^verbatim>\<open>GET /x\<close>, the tag is \<^verbatim>\<open>PGET /x\<close> and not \<^verbatim>\<open>P\<close> followed by the given tag:
  line 93 takes the option when it is truthy. The handler logs a thrown error under
  \<^verbatim>\<open>PGET /x/catch\<close>.
\<close>

theorem route_tag_counterexample:
  "route_tag ''P'' (no_options\<lparr>tag := Some ''''\<rparr>) (Some get_x) = ''PGET /x'' \<and>
   route_tag_as_specified ''P'' (no_options\<lparr>tag := Some ''''\<rparr>) (Some get_x) = ''P'' \<and>
   logged (snd (wrapRoute noopLogger ''P'' (\<lambda>req res. throws_boom) (no_options\<lparr>tag := Some ''''\<rparr>)
                  (Some get_x) (Some express) start)) = [(boom, ''PGET /x/catch'')]"
  by (simp add: run_wrapRoute run_express route_tag_as_specified_def)

text \<open>
  C8, amended. In the handler returned by \<^verbatim>\<open>wrapRoute\<close> the effective tag is the prefix of
  the factory (nothing when none is set) followed by the \<^verbatim>\<open>tag\<close> option when that is given
  and not empty, and otherwise, for a missing or an empty option, by the method, a space
  and the original URL of the request, with \<^verbatim>\<open>?\<close> for the request or a field that is
  missing. Every call the handler makes to the logger carries that tag, or that tag
  followed by \<^verbatim>\<open>/catch\<close>.
\<close>

theorem route_tag_cases:
  "route_tag tagPrefix opts req =
     tagPrefix @
     (case tag opts of
        Some (c # cs) \<Rightarrow> c # cs
      | _ \<Rightarrow>
        (case req of None \<Rightarrow> ''?'' | Some q \<Rightarrow> (case req_method q of None \<Rightarrow> ''?'' | Some m \<Rightarrow> m)) @
        '' '' @
        (case req of None \<Rightarrow> ''?'' | Some q \<Rightarrow> (case originalUrl q of None \<Rightarrow> ''?'' | Some u \<Rightarrow> u))) \<and>
   (\<exists>new. logged (snd (wrapRoute dflt tagPrefix handler opts req res s)) = logged s @ new \<and>
          list_all (\<lambda>entry. snd entry = route_tag tagPrefix opts req \<or>
                            snd entry = route_tag tagPrefix opts req @ ''/catch'') new)"
proof
  show "route_tag tagPrefix opts req =
     tagPrefix @
     (case tag opts of
        Some (c # cs) \<Rightarrow> c # cs
      | _ \<Rightarrow>
        (case req of None \<Rightarrow> ''?'' | Some q \<Rightarrow> (case req_method q of None \<Rightarrow> ''?'' | Some m \<Rightarrow> m)) @
        '' '' @
        (case req of None \<Rightarrow> ''?'' | Some q \<Rightarrow> (case originalUrl q of None \<Rightarrow> ''?'' | Some u \<Rightarrow> u)))"
    by (simp add: route_tag_def baseTag_def req_field_def split: option.splits list.splits)
next
  let ?P = "\<lambda>entry. snd entry = route_tag tagPrefix opts req \<or>
                     snd entry = route_tag tagPrefix opts req @ ''/catch''"
  have "only_adds logged ?P (wrapRoute dflt tagPrefix handler opts req res)"
    unfolding wrapRoute_def Let_def
    by (intro only_adds_tryCatch only_adds_andThen logged_await logged_resolve)
       (auto intro!: only_adds_andThen logged_call_logger only_adds_read_headersSent
          logged_status_json only_adds_returns)
  from only_addsD[OF this, of s]
  show "\<exists>new. logged (snd (wrapRoute dflt tagPrefix handler opts req res s)) = logged s @ new \<and>
          list_all ?P new" .
qed

theorem route_tag_cases_witness:
  "route_tag ''P'' (no_options\<lparr>tag := Some ''GET /achievements''\<rparr>) (Some get_x) = ''PGET /achievements'' \<and>
   route_tag ''P'' (no_options :: bool options) (Some get_x) = ''PGET /x'' \<and>
   route_tag [] (no_options :: bool options) None = ''? ?'' \<and>
   route_tag [] (no_options :: bool options) (Some \<lparr>req_method = Some ''GET'', originalUrl = None\<rparr>) = ''GET ?''"
  using route_tag_cases[of "''P''" "no_options\<lparr>tag := Some ''GET /achievements''\<rparr>" "Some get_x"
      noopLogger "\<lambda>req res. throws_boom" None start]
    route_tag_cases[of "''P''" no_options "Some get_x" noopLogger "\<lambda>req res. throws_boom" None start]
    route_tag_cases[of "[]" no_options None noopLogger "\<lambda>req res. throws_boom" None start]
    route_tag_cases[of "[]" no_options "Some \<lparr>req_method = Some ''GET'', originalUrl = None\<rparr>"
      noopLogger "\<lambda>req res. throws_boom" None start]
  by (simp add: no_options_def get_x_def)

subsection \<open>C9\<close>

text \<open>
  C9. Two result objects that differ only in their \<^verbatim>\<open>meta\<close> field (the same entries in the
  same order once every \<^verbatim>\<open>meta\<close> entry is removed) give the same run of
  \<^verbatim>\<open>resolveRouteResponse\<close> on every sink and from every state: the same returned boolean,
  the same calls on the sink with the same arguments, the same final state of the host.
\<close>

theorem resolve_ignores_meta:
  assumes "filter (\<lambda>kv. fst kv \<noteq> ''meta'') fs1 = filter (\<lambda>kv. fst kv \<noteq> ''meta'') fs2"
  shows "resolveRouteResponse res (JObj fs1) s = resolveRouteResponse res (JObj fs2) s"
proof -
  note same = get_prop_filter_keys[of "\<lambda>k. k \<noteq> ''meta''", OF assms]
  have st: "get_prop (JObj fs1) ''status'' = get_prop (JObj fs2) ''status''"
    and ht: "get_prop (JObj fs1) ''http'' = get_prop (JObj fs2) ''http''"
    and hd: "get_prop (JObj fs1) ''headers'' = get_prop (JObj fs2) ''headers''"
    and dt: "get_prop (JObj fs1) ''data'' = get_prop (JObj fs2) ''data''"
    and own: "hasOwnProperty (JObj fs1) ''status'' = hasOwnProperty (JObj fs2) ''status''"
    by (rule same; simp)+
  have has: "hasStatus (JObj fs1) = hasStatus (JObj fs2)"
    unfolding hasStatus_def own by simp
  have code: "http_code (JObj fs1) = http_code (JObj fs2)"
    unfolding http_code_def explicit_def st ht dt ..
  have hdrs: "header_entries (JObj fs1) = header_entries (JObj fs2)"
    unfolding header_entries_def hd ..
  have "resolve_try res (JObj fs1) = resolve_try res (JObj fs2)"
    unfolding resolve_try_def has code hdrs st dt ..
  then show ?thesis
    by (simp add: resolveRouteResponse_def)
qed

theorem resolve_ignores_meta_witness:
  "filter (\<lambda>kv. fst kv \<noteq> ''meta'')
     [(''status'', JBool True), (''data'', JStr ''x''), (''meta'', JObj [(''page'', JNum 1)])] =
   filter (\<lambda>kv. fst kv \<noteq> ''meta'') [(''status'', JBool True), (''meta'', JNull), (''data'', JStr ''x'')] \<and>
   resolveRouteResponse (Some express)
     (JObj [(''status'', JBool True), (''data'', JStr ''x''), (''meta'', JObj [(''page'', JNum 1)])]) start =
   resolveRouteResponse (Some express)
     (JObj [(''status'', JBool True), (''meta'', JNull), (''data'', JStr ''x'')]) start \<and>
   calls (snd (resolveRouteResponse (Some express)
     (JObj [(''status'', JBool True), (''meta'', JNull), (''data'', JStr ''x'')]) start)) =
   [CallStatus 200, CallJson (JStr ''x'')]"
proof -
  have same: "filter (\<lambda>kv. fst kv \<noteq> ''meta'')
     [(''status'', JBool True), (''data'', JStr ''x''), (''meta'', JObj [(''page'', JNum 1)])] =
   filter (\<lambda>kv. fst kv \<noteq> ''meta'') [(''status'', JBool True), (''meta'', JNull), (''data'', JStr ''x'')]"
    by simp
  have run: "calls (snd (resolveRouteResponse (Some express)
     (JObj [(''status'', JBool True), (''meta'', JNull), (''data'', JStr ''x'')]) start)) =
   [CallStatus 200, CallJson (JStr ''x'')]"
    by (simp add: run_express)
  show ?thesis
    using same resolve_ignores_meta[OF same, of "Some express" start] run
    by simp
qed

subsection \<open>C10\<close>

text \<open>
  C10. The capability guard of the resolver asks for \<^verbatim>\<open>status\<close> and \<^verbatim>\<open>send\<close> only. Take a
  sink whose \<^verbatim>\<open>status\<close> and \<^verbatim>\<open>send\<close> are functions, whose \<^verbatim>\<open>status\<close> returns the sink
  whenever it returns, and which has no \<^verbatim>\<open>json\<close> method, and a result that needs a JSON
  body (every result but a success with code 204). The sink passes the guard, the resolver
  returns \<^verbatim>\<open>true\<close>, and the calls it made are status and header calls only: no body was
  sent.
\<close>

theorem resolve_without_json:
  assumes "status r = Some f" and "\<forall>c w t. fst (f c w) = Returned t \<longrightarrow> t = This"
    and "send r \<noteq> None" and "json r = None"
    and "\<not> (get_prop response ''status'' = JBool True \<and> http_code response = 204)"
  shows "capable (Some r) \<and>
         fst (resolveRouteResponse (Some r) response s) = Returned True \<and>
         (\<exists>new. calls (snd (resolveRouteResponse (Some r) response s)) = calls s @ new \<and>
                list_all sends_nothing new)"
proof -
  have cap: "capable (Some r)"
    using assms(1,3) by (simp add: capable_def)
  have "only_adds calls sends_nothing (resolveRouteResponse (Some r) response)"
    unfolding resolveRouteResponse_def
    by (intro only_adds_tryCatch calls_resolve_try_without_json[OF assms(1,2,4,5)]
        calls_resolve_catch_without_json[OF assms(1,2,4)])
  from only_addsD[OF this, of s] cap resolve_capable_True[OF cap, of response s]
  show ?thesis by simp
qed

theorem resolve_without_json_witness:
  "json express_without_json = None \<and> send express_without_json \<noteq> None \<and>
   resolveRouteResponse (Some express_without_json)
     (JObj [(''status'', JBool True), (''data'', JObj [(''id'', JNum 1)])]) start =
   (Returned True, \<lparr>calls = [CallStatus 200, CallStatus 500], logged = [], world = False\<rparr>)"
proof -
  have st: "status express_without_json = Some (\<lambda>c w. (Returned This, w))"
    and chain: "\<forall>c w t. fst ((\<lambda>c w. (Returned This, w :: bool)) c w) = Returned t \<longrightarrow> t = This"
    and sd: "send express_without_json \<noteq> None"
    and js: "json express_without_json = None"
    by (simp_all add: express_without_json_def express_def)
  have body: "\<not> (get_prop (JObj [(''status'', JBool True), (''data'', JObj [(''id'', JNum 1)])]) ''status'' =
      JBool True \<and> http_code (JObj [(''status'', JBool True), (''data'', JObj [(''id'', JNum 1)])]) = 204)"
    by (simp add: http_code_def explicit_def Number_isInteger_def no_data_def)
  have run: "resolveRouteResponse (Some express_without_json)
     (JObj [(''status'', JBool True), (''data'', JObj [(''id'', JNum 1)])]) start =
   (Returned True, \<lparr>calls = [CallStatus 200, CallStatus 500], logged = [], world = False\<rparr>)"
    by (simp add: run_express express_without_json_def resolve_catch_def read_headersSent_def
        UnhandledResponderError_def message_or_def TypeError_def)
  show ?thesis
    using resolve_without_json[OF st chain sd js body, of start] sd js run
    by simp
qed

end
